theory Spec2Isabelle
  imports Complex_Main
begin

section \<open>Data model of the chat page (frontend/app/page.tsx)\<close>

text \<open>
  A JavaScript string is modelled as a \<^typ>\<open>string\<close>: a list of code units, restricted
  to the code units below 256 that a HOL character can hold. A JavaScript number that
  holds an identifier, an index or an HTTP status is an integer or a natural number; the
  speech speed, a fraction, is a rational number.
\<close>

datatype role = User | Assistant

text \<open>\<^verbatim>\<open>type ChatMsg\<close>: the three optional fields are \<open>None\<close> when absent (undefined).\<close>

record ChatMsg =
  role :: role
  content :: string
  msg_id :: "int option"
  reactions :: "string list option"
  bookmarked :: "bool option"

text \<open>\<^verbatim>\<open>type VoiceConfig\<close>, as decoded from the reply of \<^verbatim>\<open>GET /voice/groq/config\<close>;
  \<^verbatim>\<open>default_voice\<close> and \<^verbatim>\<open>default_speed\<close> are read with \<^verbatim>\<open>??\<close>, so they may be absent.\<close>

record VoiceConfig =
  cfg_voices :: "(string \<times> string) list"
  default_voice :: "string option"
  recommended :: string
  speed_min :: rat
  speed_max :: rat
  default_speed :: "rat option"

text \<open>\<^verbatim>\<open>type Session\<close>.\<close>

record Session =
  session_id :: int
  title :: string
  persona :: string
  created_at :: string
  updated_at :: string
  message_count :: nat

text \<open>The requests the page sends, in the order it sends them.\<close>

datatype request =
    GetVoiceConfig
  | GetSessions
  | GetSession int
  | DeleteSession int bool
  | PostChatSession string "int option" string
  | PostVoiceStream string string rat

text \<open>
  The state of the \<^verbatim>\<open>Home\<close> component: one field for each \<^verbatim>\<open>useState\<close> cell the
  functions below read or write (the three cells of \<^verbatim>\<open>useVoiceInput\<close> included), and the
  log of the requests issued so far. The cells \<^verbatim>\<open>darkMode\<close> and \<^verbatim>\<open>showSidebar\<close> only
  affect styling and are left out.
\<close>

record state =
  message :: string
  history :: "ChatMsg list"
  status :: string
  loading :: bool
  showReactionPopup :: "int option"
  voices :: "(string \<times> string) list"
  voice :: string
  speed :: rat
  textOnly :: bool
  audioUrl :: "string option"
  sessions :: "Session list"
  currentSessionId :: "int option"
  isListening :: bool
  transcript :: string
  isSupported :: bool
  requests :: "request list"

text \<open>The initial values of the \<^verbatim>\<open>useState\<close> cells.\<close>

definition initial_state :: state where
  "initial_state =
     \<lparr>message = [], history = [], status = ''Ready'', loading = False,
      showReactionPopup = None, voices = [], voice = ''Arista-PlayAI'', speed = 105 / 100,
      textOnly = False, audioUrl = None, sessions = [], currentSessionId = None,
      isListening = False, transcript = [], isSupported = False, requests = []\<rparr>"

section \<open>Reactions and bookmarks\<close>

text \<open>\<^verbatim>\<open>Array.prototype.map\<close> with the callback's index argument.\<close>

fun map_idx_from :: "nat \<Rightarrow> ('a \<Rightarrow> nat \<Rightarrow> 'b) \<Rightarrow> 'a list \<Rightarrow> 'b list" where
  "map_idx_from k f [] = []"
| "map_idx_from k f (x # xs) = f x k # map_idx_from (Suc k) f xs"

definition map_idx :: "('a \<Rightarrow> nat \<Rightarrow> 'b) \<Rightarrow> 'a list \<Rightarrow> 'b list" where
  "map_idx f xs = map_idx_from 0 f xs"

text \<open>\<^verbatim>\<open>msg.reactions || []\<close>: the reactions of a message, none when the field is absent.\<close>

definition reaction_list :: "ChatMsg \<Rightarrow> string list" where
  "reaction_list msg = (case reactions msg of None \<Rightarrow> [] | Some rs \<Rightarrow> rs)"

text \<open>The callback of \<^verbatim>\<open>addReaction\<close>: \<^verbatim>\<open>includes\<close>, then
  \<^verbatim>\<open>filter((r) => r !== emoji)\<close> or \<^verbatim>\<open>[...currentReactions, emoji]\<close>.\<close>

definition react_msg :: "int \<Rightarrow> string \<Rightarrow> ChatMsg \<Rightarrow> nat \<Rightarrow> ChatMsg" where
  "react_msg messageIndex emoji msg i =
     (if int i = messageIndex then
        let currentReactions = reaction_list msg;
            hasReaction = (emoji \<in> set currentReactions)
        in msg\<lparr>reactions :=
                 Some (if hasReaction then filter (\<lambda>r. r \<noteq> emoji) currentReactions
                       else currentReactions @ [emoji])\<rparr>
      else msg)"

definition addReaction :: "int \<Rightarrow> string \<Rightarrow> state \<Rightarrow> state" where
  "addReaction messageIndex emoji s =
     s\<lparr>history := map_idx (react_msg messageIndex emoji) (history s),
       showReactionPopup := None\<rparr>"

text \<open>The callback of \<^verbatim>\<open>toggleBookmark\<close>: \<^verbatim>\<open>!msg.bookmarked\<close> is true for an absent flag.\<close>

definition bookmark_msg :: "int \<Rightarrow> ChatMsg \<Rightarrow> nat \<Rightarrow> ChatMsg" where
  "bookmark_msg messageIndex msg i =
     (if int i = messageIndex then
        msg\<lparr>bookmarked := Some (\<not> (case bookmarked msg of None \<Rightarrow> False | Some b \<Rightarrow> b))\<rparr>
      else msg)"

definition toggleBookmark :: "int \<Rightarrow> state \<Rightarrow> state" where
  "toggleBookmark messageIndex s =
     s\<lparr>history := map_idx (bookmark_msg messageIndex) (history s)\<rparr>"

section \<open>Starting over\<close>

definition createNewSession :: "state \<Rightarrow> state" where
  "createNewSession s =
     s\<lparr>history := [], currentSessionId := None, audioUrl := None,
       status := ''New chat started''\<rparr>"

definition clearAll :: "state \<Rightarrow> state" where
  "clearAll s =
     s\<lparr>history := [], audioUrl := None, currentSessionId := None, status := ''Cleared''\<rparr>"

section \<open>Text helpers\<close>

text \<open>\<^verbatim>\<open>String.prototype.trim\<close>: the white-space and line-terminator code units below 256
  are tab, line feed, vertical tab, form feed, carriage return, space and no-break space.\<close>

definition is_ws :: "char \<Rightarrow> bool" where
  "is_ws c = (c \<in> set [CHR 0x09, CHR 0x0A, CHR 0x0B, CHR 0x0C, CHR 0x0D, CHR 0x20, CHR 0xA0])"

definition trim :: "string \<Rightarrow> string" where
  "trim s = rev (dropWhile is_ws (rev (dropWhile is_ws s)))"

text \<open>The decimal text of a number in a template literal, as in \<^verbatim>\<open>${res.status}\<close>.\<close>

definition digit_char :: "nat \<Rightarrow> char" where
  "digit_char d = char_of (48 + d)"

fun show_nat :: "nat \<Rightarrow> string" where
  "show_nat n = (if n < 10 then [digit_char n] else show_nat (n div 10) @ [digit_char (n mod 10)])"

text \<open>JavaScript truthiness of a \<^verbatim>\<open>number | null | undefined\<close>: null, undefined and 0 are
  falsy.\<close>

definition truthy :: "int option \<Rightarrow> bool" where
  "truthy x = (case x of None \<Rightarrow> False | Some n \<Rightarrow> n \<noteq> 0)"

section \<open>Replies of the backend\<close>

text \<open>
  What an awaited \<^verbatim>\<open>fetch\<close> and the decoding of its body give the caller:
  \<open>Rejected m\<close> when either throws an error whose message is \<open>m\<close>, \<open>NotOk n\<close> when the
  response has \<^verbatim>\<open>res.ok = false\<close> and \<^verbatim>\<open>res.status = n\<close>, and \<open>Ok b\<close> when the
  response is ok and its body decodes to \<open>b\<close>. The backend itself is not part of the
  source; its replies are parameters of the model.
\<close>

datatype 'a fetched = Rejected string | NotOk nat | Ok 'a

definition failed :: "'a fetched \<Rightarrow> bool" where
  "failed r = (case r of Ok b \<Rightarrow> False | Rejected m \<Rightarrow> True | NotOk n \<Rightarrow> True)"

text \<open>The body of \<^verbatim>\<open>POST /chat/session\<close>: \<^verbatim>\<open>data.response\<close>, \<^verbatim>\<open>data.metadata?.session_id\<close>
  and \<^verbatim>\<open>data?.metadata?.duration_seconds\<close> (the latter as the text the template literal
  prints).\<close>

record chat_metadata =
  meta_session_id :: "int option"
  duration_seconds :: "string option"

record chat_data =
  response :: string
  metadata :: "chat_metadata option"

text \<open>The body of \<^verbatim>\<open>GET /sessions/{id}\<close>: \<^verbatim>\<open>data.messages\<close> (role, content and id of each;
  \<open>None\<close> when the body has no such array, so that \<^verbatim>\<open>data.messages.map\<close> throws) and
  \<^verbatim>\<open>data.session.title\<close> (\<open>None\<close> when the body has no \<^verbatim>\<open>session\<close>, so that reading its
  title throws).\<close>

record session_body =
  body_messages :: "(role \<times> string \<times> int option) list option"
  body_title :: "string option"

section \<open>Loading the voice configuration and the sessions\<close>

text \<open>\<^verbatim>\<open>loadConfig\<close> after its fetch: nothing happens unless the response is ok.\<close>

definition loadConfig_after :: "VoiceConfig fetched \<Rightarrow> state \<Rightarrow> state" where
  "loadConfig_after r s =
     (case r of
        Ok cfg \<Rightarrow>
          s\<lparr>voices := cfg_voices cfg,
            voice := (case default_voice cfg of None \<Rightarrow> ''Fritz-PlayAI'' | Some v \<Rightarrow> v),
            speed := (case default_speed cfg of None \<Rightarrow> 105 / 100 | Some d \<Rightarrow> d)\<rparr>
      | NotOk n \<Rightarrow> s
      | Rejected m \<Rightarrow> s)"

definition loadSessions_begin :: "state \<Rightarrow> state" where
  "loadSessions_begin s = s\<lparr>requests := requests s @ [GetSessions]\<rparr>"

text \<open>\<^verbatim>\<open>loadSessions\<close> after its fetch: \<^verbatim>\<open>setSessions(data.sessions || [])\<close>; a response
  that is not ok and an exception both leave the list as it is.\<close>

definition loadSessions_after :: "Session list option fetched \<Rightarrow> state \<Rightarrow> state" where
  "loadSessions_after r s =
     (case r of
        Ok body \<Rightarrow> s\<lparr>sessions := (case body of None \<Rightarrow> [] | Some ss \<Rightarrow> ss)\<rparr>
      | NotOk n \<Rightarrow> s
      | Rejected m \<Rightarrow> s)"

definition loadSession_begin :: "int \<Rightarrow> state \<Rightarrow> state" where
  "loadSession_begin sessionId s = s\<lparr>requests := requests s @ [GetSession sessionId]\<rparr>"

text \<open>\<^verbatim>\<open>loadSession\<close> after its fetch. The three setters run in the order of the source: an
  exception while the messages are mapped leaves the state as it is, and an exception
  while the title is read comes after the history and the current session are set; the
  \<^verbatim>\<open>catch\<close> only logs.\<close>

definition loadSession_after :: "int \<Rightarrow> session_body fetched \<Rightarrow> state \<Rightarrow> state" where
  "loadSession_after sessionId r s =
     (case r of
        Ok data \<Rightarrow>
          (case body_messages data of
             None \<Rightarrow> s
           | Some ms \<Rightarrow>
               let s1 = s\<lparr>history :=
                           map (\<lambda>(ro, co, i). \<lparr>role = ro, content = co, msg_id = i,
                                               reactions = None, bookmarked = None\<rparr>) ms,
                         currentSessionId := Some sessionId\<rparr>
               in (case body_title data of
                     None \<Rightarrow> s1
                   | Some ti \<Rightarrow> s1\<lparr>status := ''Loaded: '' @ ti\<rparr>))
      | NotOk n \<Rightarrow> s
      | Rejected m \<Rightarrow> s)"

section \<open>Suspended asynchronous calls\<close>

text \<open>
  An \<^verbatim>\<open>async\<close> function runs until its next \<^verbatim>\<open>await\<close> and is resumed when the awaited
  request settles. A task is a call suspended at an \<^verbatim>\<open>await\<close>, with the values of the
  component state that its closure captured and still reads after the \<^verbatim>\<open>await\<close>:
  \<^verbatim>\<open>currentSessionId\<close> for \<^verbatim>\<open>deleteSession\<close>; \<^verbatim>\<open>currentSessionId\<close>, \<^verbatim>\<open>textOnly\<close>,
  \<^verbatim>\<open>voice\<close> and \<^verbatim>\<open>speed\<close> for \<^verbatim>\<open>sendChat\<close>.
\<close>

datatype task =
    LoadConfig_fetch
  | LoadSessions_fetch
  | LoadSession_fetch int
  | DeleteSession_fetch int "int option"
  | DeleteSession_loadSessions int "int option"
  | SendChat_fetch "int option" bool string rat
  | SendChat_voice

section \<open>Deleting a session\<close>

definition deleteSession_begin :: "int \<Rightarrow> state \<Rightarrow> state" where
  "deleteSession_begin sessionId s =
     s\<lparr>requests := requests s @ [DeleteSession sessionId True]\<rparr>"

text \<open>After the \<^verbatim>\<open>DELETE\<close>: its response is not inspected, so any response goes on to
  \<^verbatim>\<open>await loadSessions()\<close>; an exception goes to the \<^verbatim>\<open>catch\<close>, which only logs.\<close>

definition deleteSession_after_delete ::
    "int \<Rightarrow> int option \<Rightarrow> unit fetched \<Rightarrow> state \<Rightarrow> state \<times> task list" where
  "deleteSession_after_delete sessionId cur r s =
     (case r of
        Rejected m \<Rightarrow> (s, [])
      | NotOk n \<Rightarrow> (loadSessions_begin s, [DeleteSession_loadSessions sessionId cur])
      | Ok u \<Rightarrow> (loadSessions_begin s, [DeleteSession_loadSessions sessionId cur]))"

text \<open>After \<^verbatim>\<open>await loadSessions()\<close>, which never throws:
  \<^verbatim>\<open>if (currentSessionId === sessionId) createNewSession()\<close>.\<close>

definition deleteSession_after_list ::
    "int \<Rightarrow> int option \<Rightarrow> Session list option fetched \<Rightarrow> state \<Rightarrow> state" where
  "deleteSession_after_list sessionId cur r s =
     (let s1 = loadSessions_after r s
      in if cur = Some sessionId then createNewSession s1 else s1)"


text \<open>
  Modelled from the spec: the backend's handler of \<^verbatim>\<open>GET /sessions\<close>, which is not part of
  the source: a plain list operation over the store; the body carries the rows as
  \<^verbatim>\<open>sessions\<close>.
\<close>

definition backend_list :: "Session list \<Rightarrow> Session list option" where
  "backend_list rows = Some rows"

text \<open>\<^verbatim>\<open>deleteSession\<close> run from its call to its end with no other event in between, the
  two replies it awaits being given.\<close>

record delete_env =
  delete_reply :: "unit fetched"
  list_reply :: "Session list option fetched"

definition deleteSession :: "delete_env \<Rightarrow> int \<Rightarrow> state \<Rightarrow> state" where
  "deleteSession env sessionId s =
     (case deleteSession_after_delete sessionId (currentSessionId s) (delete_reply env)
             (deleteSession_begin sessionId s) of
        (s1, ts) \<Rightarrow>
          if ts = [] then s1
          else deleteSession_after_list sessionId (currentSessionId s) (list_reply env) s1)"

section \<open>Sending a chat message\<close>

definition user_entry :: "string \<Rightarrow> ChatMsg" where
  "user_entry text =
     \<lparr>role = User, content = text, msg_id = None, reactions = None, bookmarked = None\<rparr>"

definition assistant_entry :: "string \<Rightarrow> ChatMsg" where
  "assistant_entry text =
     \<lparr>role = Assistant, content = text, msg_id = None, reactions = None, bookmarked = None\<rparr>"

text \<open>\<^verbatim>\<open>sendChat\<close> from the guard's fall-through to the first \<^verbatim>\<open>await\<close>.\<close>

definition sendChat_begin :: "state \<Rightarrow> state" where
  "sendChat_begin s =
     s\<lparr>history := history s @ [user_entry (trim (message s))],
       message := [],
       transcript := [],
       loading := True,
       status := ''Thinking...'',
       requests := requests s @ [PostChatSession (trim (message s)) (currentSessionId s) ''iroha'']\<rparr>"

text \<open>The \<^verbatim>\<open>catch\<close> block followed by the \<^verbatim>\<open>finally\<close> block; \<open>m\<close> is the text of
  \<^verbatim>\<open>err?.message ?? err\<close>.\<close>

definition sendChat_catch :: "string \<Rightarrow> state \<Rightarrow> state" where
  "sendChat_catch m s = s\<lparr>status := ''Error: '' @ m, loading := False\<rparr>"

text \<open>\<^verbatim>\<open>data.metadata?.session_id\<close>.\<close>

definition reply_sid :: "chat_data \<Rightarrow> int option" where
  "reply_sid data = (case metadata data of None \<Rightarrow> None | Some md \<Rightarrow> meta_session_id md)"

text \<open>
  \<^verbatim>\<open>sendChat\<close> from the reply of the chat request to the next \<^verbatim>\<open>await\<close> or to the end.
  \<open>cur\<close>, \<open>tOnly\<close>, \<open>v\<close> and \<open>sp\<close> are the captured \<^verbatim>\<open>currentSessionId\<close>, \<^verbatim>\<open>textOnly\<close>,
  \<^verbatim>\<open>voice\<close> and \<^verbatim>\<open>speed\<close>. The session id is adopted when it is truthy and the captured
  one is not. The call of \<^verbatim>\<open>loadSessions()\<close> is not awaited: it issues its request and
  stays pending beside \<^verbatim>\<open>sendChat\<close>.
\<close>

definition sendChat_after_chat ::
    "int option \<Rightarrow> bool \<Rightarrow> string \<Rightarrow> rat \<Rightarrow> chat_data fetched \<Rightarrow> state \<Rightarrow> state \<times> task list" where
  "sendChat_after_chat cur tOnly v sp r s =
     (case r of
        Rejected m \<Rightarrow> (sendChat_catch m s, [])
      | NotOk n \<Rightarrow> (sendChat_catch (''Chat failed ('' @ show_nat n @ '')'') s, [])
      | Ok data \<Rightarrow>
          let sid = reply_sid data;
              dur = (case metadata data of None \<Rightarrow> None | Some md \<Rightarrow> duration_seconds md);
              isNew = (truthy sid \<and> \<not> truthy cur);
              s1 = (if isNew then loadSessions_begin (s\<lparr>currentSessionId := sid\<rparr>) else s);
              ts = (if isNew then [LoadSessions_fetch] else []);
              s2 = s1\<lparr>history := history s1 @ [assistant_entry (response data)],
                      status := ''Response time: '' @ (case dur of None \<Rightarrow> ''?'' | Some d \<Rightarrow> d)
                                  @ ''s''\<rparr>
          in if \<not> tOnly then
               (s2\<lparr>status := ''Generating voice...'',
                   requests := requests s2 @ [PostVoiceStream (response data) v sp]\<rparr>,
                ts @ [SendChat_voice])
             else (s2\<lparr>loading := False\<rparr>, ts))"

text \<open>\<^verbatim>\<open>sendChat\<close> from the reply of the voice request to the end; the body of an ok
  response is the object URL made from the audio buffer.\<close>

definition sendChat_after_voice :: "string fetched \<Rightarrow> state \<Rightarrow> state" where
  "sendChat_after_voice r s =
     (case r of
        Rejected m \<Rightarrow> sendChat_catch m s
      | NotOk n \<Rightarrow> sendChat_catch (''TTS failed ('' @ show_nat n @ '')'') s
      | Ok url \<Rightarrow> s\<lparr>audioUrl := Some url, status := ''Ready'', loading := False\<rparr>)"

text \<open>
  \<^verbatim>\<open>sendChat\<close> run from its call to its end with no other event in between, the replies
  it waits for being given. The refresh of the sidebar that it starts without awaiting is
  run to its end as well; it writes \<^verbatim>\<open>sessions\<close> only, which \<^verbatim>\<open>sendChat\<close> never touches.
\<close>

record chat_env =
  chat_reply :: "chat_data fetched"
  voice_reply :: "string fetched"
  sessions_reply :: "Session list option fetched"

definition sendChat :: "chat_env \<Rightarrow> state \<Rightarrow> state" where
  "sendChat env s =
     (if trim (message s) = [] then s
      else
        case sendChat_after_chat (currentSessionId s) (textOnly s) (voice s) (speed s)
               (chat_reply env) (sendChat_begin s) of
          (s1, ts) \<Rightarrow>
            let s2 = (if LoadSessions_fetch \<in> set ts
                      then loadSessions_after (sessions_reply env) s1 else s1)
            in if SendChat_voice \<in> set ts then sendChat_after_voice (voice_reply env) s2
               else s2)"

definition is_chat_request :: "request \<Rightarrow> bool" where
  "is_chat_request q = (case q of PostChatSession m c p \<Rightarrow> True | _ \<Rightarrow> False)"

definition is_voice_request :: "request \<Rightarrow> bool" where
  "is_voice_request q = (case q of PostVoiceStream t v sp \<Rightarrow> True | _ \<Rightarrow> False)"

section \<open>The page as an event-driven system\<close>

text \<open>
  The component state together with the asynchronous calls that are suspended at an
  \<^verbatim>\<open>await\<close>. Handlers run one at a time, each to its next \<^verbatim>\<open>await\<close>.
\<close>

record system =
  ui :: state
  pending :: "task list"

text \<open>
  The page after its mount effects have run: \<^verbatim>\<open>isSupported\<close> is set when the browser
  has a speech recognition interface, and \<^verbatim>\<open>loadConfig()\<close> and \<^verbatim>\<open>loadSessions()\<close> have
  issued their requests.
\<close>

definition mounted :: "bool \<Rightarrow> system" where
  "mounted speech =
     \<lparr>ui = initial_state\<lparr>isSupported := speech, requests := [GetVoiceConfig, GetSessions]\<rparr>,
      pending = [LoadConfig_fetch, LoadSessions_fetch]\<rparr>"

datatype reply =
    ConfigReply "VoiceConfig fetched"
  | SessionsReply "Session list option fetched"
  | SessionReply "session_body fetched"
  | DeleteReply "unit fetched"
  | ChatReply "chat_data fetched"
  | VoiceReply "string fetched"

text \<open>
  What can happen to the page: the user acts on a rendered control, the speech
  recognition reports, or the request awaited by the \<open>n\<close>-th pending task settles.
\<close>

datatype event =
    Change string
  | KeyDown string bool
  | ClickSend
  | ClickClear
  | ClickNewChat
  | ClickSession int
  | ClickDeleteSession int
  | ClickBookmark nat
  | ClickReactionButton nat
  | ClickReaction nat string
  | SelectVoice string
  | ChangeSpeed rat
  | ChangeTextOnly bool
  | ClickMic
  | SpeechResult string
  | SpeechEnd
  | Settle nat reply

text \<open>Resuming a task with the reply to its request; \<open>None\<close> when the reply is not of the
  kind the task awaits.\<close>

fun resume :: "task \<Rightarrow> reply \<Rightarrow> state \<Rightarrow> (state \<times> task list) option" where
  "resume LoadConfig_fetch (ConfigReply r) s = Some (loadConfig_after r s, [])"
| "resume LoadSessions_fetch (SessionsReply r) s = Some (loadSessions_after r s, [])"
| "resume (LoadSession_fetch sessionId) (SessionReply r) s =
     Some (loadSession_after sessionId r s, [])"
| "resume (DeleteSession_fetch sessionId cur) (DeleteReply r) s =
     Some (deleteSession_after_delete sessionId cur r s)"
| "resume (DeleteSession_loadSessions sessionId cur) (SessionsReply r) s =
     Some (deleteSession_after_list sessionId cur r s, [])"
| "resume (SendChat_fetch cur tOnly v sp) (ChatReply r) s =
     Some (sendChat_after_chat cur tOnly v sp r s)"
| "resume SendChat_voice (VoiceReply r) s = Some (sendChat_after_voice r s, [])"
| "resume t r s = None"

text \<open>A call of \<^verbatim>\<open>sendChat()\<close>: the guard on the trimmed message, then the part up to the
  first \<^verbatim>\<open>await\<close>, which leaves the call pending with its captured values.\<close>

definition sendChat_call :: "system \<Rightarrow> system" where
  "sendChat_call sys =
     (let s = ui sys
      in if trim (message s) = [] then sys
         else sys\<lparr>ui := sendChat_begin s,
                  pending := pending sys
                    @ [SendChat_fetch (currentSessionId s) (textOnly s) (voice s) (speed s)]\<rparr>)"

text \<open>\<^verbatim>\<open>handleKeyDown\<close>.\<close>

definition handleKeyDown :: "string \<Rightarrow> bool \<Rightarrow> system \<Rightarrow> system" where
  "handleKeyDown key shiftKey sys =
     (if key = ''Enter'' \<and> \<not> shiftKey then sendChat_call sys else sys)"

text \<open>\<^verbatim>\<open>startListening\<close> and \<^verbatim>\<open>stopListening\<close>; the recognition object exists exactly when
  \<^verbatim>\<open>isSupported\<close> was set.\<close>

definition startListening :: "state \<Rightarrow> state" where
  "startListening s =
     (if isSupported s \<and> \<not> isListening s then s\<lparr>transcript := [], isListening := True\<rparr>
      else s)"

definition stopListening :: "state \<Rightarrow> state" where
  "stopListening s = (if isSupported s \<and> isListening s then s\<lparr>isListening := False\<rparr> else s)"

text \<open>
  One event. Each control is taken as the render shows it: the textarea is disabled while
  \<^verbatim>\<open>isListening\<close>, the send button while \<^verbatim>\<open>loading || !message.trim()\<close>, the microphone
  button exists when \<^verbatim>\<open>isSupported\<close>, the per-message controls exist for the messages of
  the history, the session rows for the sessions of the list, the voice options for the
  keys of \<^verbatim>\<open>voices\<close>, and the range input reports values from its \<^verbatim>\<open>min\<close> 0.5 to its
  \<^verbatim>\<open>max\<close> 2. An event on a control that is disabled or absent changes nothing.
\<close>

definition step :: "event \<Rightarrow> system \<Rightarrow> system" where
  "step e sys =
     (let s = ui sys in
      case e of
        Change v \<Rightarrow> if isListening s then sys else sys\<lparr>ui := s\<lparr>message := v\<rparr>\<rparr>
      | KeyDown key shiftKey \<Rightarrow> if isListening s then sys else handleKeyDown key shiftKey sys
      | ClickSend \<Rightarrow> if loading s \<or> trim (message s) = [] then sys else sendChat_call sys
      | ClickClear \<Rightarrow> sys\<lparr>ui := clearAll s\<rparr>
      | ClickNewChat \<Rightarrow> sys\<lparr>ui := createNewSession s\<rparr>
      | ClickSession sessionId \<Rightarrow>
          if sessionId \<in> set (map session_id (sessions s))
          then sys\<lparr>ui := loadSession_begin sessionId s,
                   pending := pending sys @ [LoadSession_fetch sessionId]\<rparr>
          else sys
      | ClickDeleteSession sessionId \<Rightarrow>
          if sessionId \<in> set (map session_id (sessions s))
          then sys\<lparr>ui := deleteSession_begin sessionId s,
                   pending := pending sys
                     @ [DeleteSession_fetch sessionId (currentSessionId s)]\<rparr>
          else sys
      | ClickBookmark i \<Rightarrow>
          if i < length (history s) then sys\<lparr>ui := toggleBookmark (int i) s\<rparr> else sys
      | ClickReactionButton i \<Rightarrow>
          if i < length (history s)
          then sys\<lparr>ui := s\<lparr>showReactionPopup :=
                     (if showReactionPopup s = Some (int i) then None else Some (int i))\<rparr>\<rparr>
          else sys
      | ClickReaction i emoji \<Rightarrow>
          if i < length (history s) then sys\<lparr>ui := addReaction (int i) emoji s\<rparr> else sys
      | SelectVoice v \<Rightarrow>
          if v \<in> set (map fst (voices s)) then sys\<lparr>ui := s\<lparr>voice := v\<rparr>\<rparr> else sys
      | ChangeSpeed v \<Rightarrow>
          if 1 / 2 \<le> v \<and> v \<le> 2 then sys\<lparr>ui := s\<lparr>speed := v\<rparr>\<rparr> else sys
      | ChangeTextOnly b \<Rightarrow> sys\<lparr>ui := s\<lparr>textOnly := b\<rparr>\<rparr>
      | ClickMic \<Rightarrow>
          if isSupported s
          then sys\<lparr>ui := (if isListening s then stopListening s else startListening s)\<rparr>
          else sys
      | SpeechResult t \<Rightarrow>
          sys\<lparr>ui := s\<lparr>transcript := t,
                       message := (if t \<noteq> transcript s \<and> t \<noteq> [] then t else message s)\<rparr>\<rparr>
      | SpeechEnd \<Rightarrow> sys\<lparr>ui := s\<lparr>isListening := False\<rparr>\<rparr>
      | Settle n r \<Rightarrow>
          if n < length (pending sys) then
            (case resume (pending sys ! n) r s of
               None \<Rightarrow> sys
             | Some (s', ts) \<Rightarrow>
                 sys\<lparr>ui := s', pending := take n (pending sys) @ drop (Suc n) (pending sys) @ ts\<rparr>)
          else sys)"

text \<open>A run of events, from left to right.\<close>

definition run :: "event list \<Rightarrow> system \<Rightarrow> system" where
  "run es sys = foldl (\<lambda>y e. step e y) sys es"

text \<open>
  The events of one call of \<^verbatim>\<open>sendChat\<close> (started with the Enter key) and of one call of
  \<^verbatim>\<open>deleteSession\<close> on an idle page, each request settling before anything else happens.
\<close>

definition sendChat_events :: "chat_env \<Rightarrow> state \<Rightarrow> event list" where
  "sendChat_events env s =
     (let ts = snd (sendChat_after_chat (currentSessionId s) (textOnly s) (voice s) (speed s)
                      (chat_reply env) (sendChat_begin s))
      in [KeyDown ''Enter'' False, Settle 0 (ChatReply (chat_reply env))]
         @ (if LoadSessions_fetch \<in> set ts
            then [Settle 0 (SessionsReply (sessions_reply env))] else [])
         @ (if SendChat_voice \<in> set ts then [Settle 0 (VoiceReply (voice_reply env))] else []))"

definition deleteSession_events :: "delete_env \<Rightarrow> int \<Rightarrow> event list" where
  "deleteSession_events env sessionId =
     [ClickDeleteSession sessionId, Settle 0 (DeleteReply (delete_reply env)),
      Settle 0 (SessionsReply (list_reply env))]"

text \<open>The chat requests that are in flight: the pending calls of \<^verbatim>\<open>sendChat\<close> that await
  the reply of \<^verbatim>\<open>POST /chat/session\<close>.\<close>

definition awaits_chat :: "task \<Rightarrow> bool" where
  "awaits_chat t = (case t of SendChat_fetch cur tOnly v sp \<Rightarrow> True | _ \<Rightarrow> False)"

definition chats_in_flight :: "system \<Rightarrow> nat" where
  "chats_in_flight sys = length (filter awaits_chat (pending sys))"

text \<open>The number of pending calls of \<^verbatim>\<open>loadConfig\<close>.\<close>

definition configs_pending :: "system \<Rightarrow> nat" where
  "configs_pending sys = length (filter (\<lambda>t. t = LoadConfig_fetch) (pending sys))"

section \<open>Sample inputs\<close>

text \<open>A conversation of two messages with a third one typed; the sidebar lists sessions
  7 and 8, and session 7 is the current one.\<close>

definition sample_session :: "int \<Rightarrow> Session" where
  "sample_session n =
     \<lparr>session_id = n, title = ''Notes'', persona = ''iroha'', created_at = ''2024-01-01'',
      updated_at = ''2024-01-02'', message_count = 2\<rparr>"

definition sample_state :: state where
  "sample_state =
     initial_state\<lparr>message := ''  next '',
                   history := [user_entry ''hi'', assistant_entry ''hello''],
                   sessions := [sample_session 7, sample_session 8],
                   currentSessionId := Some 7\<rparr>"

definition sample_config :: VoiceConfig where
  "sample_config =
     \<lparr>cfg_voices = [(''Fritz-PlayAI'', ''Fritz-PlayAI''), (''Arista-PlayAI'', ''Arista-PlayAI'')],
      default_voice = Some ''Fritz-PlayAI'', recommended = ''Fritz-PlayAI'',
      speed_min = 1 / 2, speed_max = 3 / 2, default_speed = Some 1\<rparr>"

definition sample_chat_data :: "int \<Rightarrow> chat_data" where
  "sample_chat_data n =
     \<lparr>response = ''ok!'',
      metadata = Some \<lparr>meta_session_id = Some n, duration_seconds = Some ''0.42''\<rparr>\<rparr>"

text \<open>The same state with a message of white space only, and with no current session.\<close>

definition blank_state :: state where
  "blank_state = sample_state\<lparr>message := [CHR 0x20, CHR 0x09, CHR 0x0A]\<rparr>"

definition fresh_state :: state where
  "fresh_state = sample_state\<lparr>currentSessionId := None\<rparr>"

text \<open>Backends: the chat endpoint answers 500; everything answers, the chat reply carrying
  session id \<open>n\<close>; the chat endpoint answers and the voice request throws.\<close>

definition chat_down :: chat_env where
  "chat_down = \<lparr>chat_reply = NotOk 500, voice_reply = Ok ''blob:1'', sessions_reply = Ok None\<rparr>"

definition chat_up :: "int \<Rightarrow> chat_env" where
  "chat_up n =
     \<lparr>chat_reply = Ok (sample_chat_data n), voice_reply = Ok ''blob:1'',
      sessions_reply = Ok (Some [sample_session n])\<rparr>"

definition voice_down :: chat_env where
  "voice_down = (chat_up 9)\<lparr>voice_reply := Rejected ''Failed to fetch''\<rparr>"

text \<open>A store that holds sessions 7 and 8. The \<^verbatim>\<open>DELETE\<close> request throws; both requests
  are answered ok, the list being the one of the store after session 7 is deleted; the
  \<^verbatim>\<open>DELETE\<close> is answered 404 and the list still holds both sessions.\<close>

definition sample_rows :: "Session list" where
  "sample_rows = [sample_session 7, sample_session 8]"



definition store_refuses :: delete_env where
  "store_refuses = \<lparr>delete_reply = NotOk 404, list_reply = Ok (backend_list sample_rows)\<rparr>"

text \<open>The page after the user has typed a message, sent it with the Enter key and typed
  the next one while the reply is awaited.\<close>

definition busy_page :: system where
  "busy_page = run [Change ''hi'', KeyDown ''Enter'' False, Change ''again''] (mounted False)"

declare show_nat.simps [simp del]

section \<open>Properties\<close>

lemma length_map_idx_from: "length (map_idx_from k f xs) = length xs"
  by (induction xs arbitrary: k) simp_all

lemma nth_map_idx_from:
  "j < length xs \<Longrightarrow> map_idx_from k f xs ! j = f (xs ! j) (k + j)"
proof (induction xs arbitrary: k j)
  case Nil
  then show ?case by simp
next
  case (Cons x xs)
  then show ?case by (cases j) simp_all
qed

lemma length_map_idx: "length (map_idx f xs) = length xs"
  by (simp add: map_idx_def length_map_idx_from)

lemma nth_map_idx: "j < length xs \<Longrightarrow> map_idx f xs ! j = f (xs ! j) j"
  by (simp add: map_idx_def nth_map_idx_from)

subsection \<open>sendChat, phase by phase\<close>

lemma catch_fields:
  "status (sendChat_catch m s) = ''Error: '' @ m"
  "loading (sendChat_catch m s) = False"
  "requests (sendChat_catch m s) = requests s"
  "history (sendChat_catch m s) = history s"
  by (simp_all add: sendChat_catch_def)

lemma begin_fields:
  "history (sendChat_begin s) = history s @ [user_entry (trim (message s))]"
  "requests (sendChat_begin s)
     = requests s @ [PostChatSession (trim (message s)) (currentSessionId s) ''iroha'']"
  "currentSessionId (sendChat_begin s) = currentSessionId s"
  by (simp_all add: sendChat_begin_def)

lemma after_voice_fields:
  "requests (sendChat_after_voice r s) = requests s"
  "history (sendChat_after_voice r s) = history s"
  "currentSessionId (sendChat_after_voice r s) = currentSessionId s"
  "loading (sendChat_after_voice r s) = False"
  by (cases r; simp add: sendChat_after_voice_def sendChat_catch_def)+

lemma after_voice_failed:
  "failed r \<Longrightarrow> take 6 (status (sendChat_after_voice r s)) = ''Error:''"
  by (cases r) (simp_all add: sendChat_after_voice_def sendChat_catch_def failed_def)

lemma loadSessions_after_fields:
  "requests (loadSessions_after r s) = requests s"
  "history (loadSessions_after r s) = history s"
  "currentSessionId (loadSessions_after r s) = currentSessionId s"
  "loading (loadSessions_after r s) = loading s"
  "status (loadSessions_after r s) = status s"
  by (cases r; simp add: loadSessions_after_def)+

lemma after_chat_failed:
  "failed r \<Longrightarrow> snd (sendChat_after_chat cur tOnly v sp r s) = []"
  "failed r \<Longrightarrow> take 6 (status (fst (sendChat_after_chat cur tOnly v sp r s))) = ''Error:''"
  "failed r \<Longrightarrow> loading (fst (sendChat_after_chat cur tOnly v sp r s)) = False"
  "failed r \<Longrightarrow> requests (fst (sendChat_after_chat cur tOnly v sp r s)) = requests s"
  "failed r \<Longrightarrow> history (fst (sendChat_after_chat cur tOnly v sp r s)) = history s"
  by (cases r; simp add: sendChat_after_chat_def sendChat_catch_def failed_def)+

lemma after_chat_Ok:
  "snd (sendChat_after_chat cur tOnly v sp (Ok d) s)
     = (if truthy (reply_sid d) \<and> \<not> truthy cur then [LoadSessions_fetch] else [])
       @ (if tOnly then [] else [SendChat_voice])"
  "requests (fst (sendChat_after_chat cur tOnly v sp (Ok d) s))
     = requests s
       @ (if truthy (reply_sid d) \<and> \<not> truthy cur then [GetSessions] else [])
       @ (if tOnly then [] else [PostVoiceStream (response d) v sp])"
  "history (fst (sendChat_after_chat cur tOnly v sp (Ok d) s))
     = history s @ [assistant_entry (response d)]"
  "currentSessionId (fst (sendChat_after_chat cur tOnly v sp (Ok d) s))
     = (if truthy (reply_sid d) \<and> \<not> truthy cur then reply_sid d else currentSessionId s)"
  by (simp_all add: sendChat_after_chat_def reply_sid_def loadSessions_begin_def Let_def)

lemma sendChat_unfold:
  "trim (message s) \<noteq> [] \<Longrightarrow>
     sendChat env s =
       (let p = sendChat_after_chat (currentSessionId s) (textOnly s) (voice s) (speed s)
                  (chat_reply env) (sendChat_begin s);
            s2 = (if LoadSessions_fetch \<in> set (snd p)
                  then loadSessions_after (sessions_reply env) (fst p) else fst p)
        in if SendChat_voice \<in> set (snd p) then sendChat_after_voice (voice_reply env) s2
           else s2)"
  by (simp add: sendChat_def Let_def split: prod.split)

lemma sendChat_requests:
  "trim (message s) \<noteq> [] \<Longrightarrow>
     requests (sendChat env s) =
       requests (fst (sendChat_after_chat (currentSessionId s) (textOnly s) (voice s) (speed s)
                  (chat_reply env) (sendChat_begin s)))"
  by (simp add: sendChat_unfold Let_def after_voice_fields loadSessions_after_fields)

lemma sendChat_history_eq:
  "trim (message s) \<noteq> [] \<Longrightarrow>
     history (sendChat env s) =
       history (fst (sendChat_after_chat (currentSessionId s) (textOnly s) (voice s) (speed s)
                  (chat_reply env) (sendChat_begin s)))"
  by (simp add: sendChat_unfold Let_def after_voice_fields loadSessions_after_fields)

lemma sendChat_currentSessionId_eq:
  "trim (message s) \<noteq> [] \<Longrightarrow>
     currentSessionId (sendChat env s) =
       currentSessionId (fst (sendChat_after_chat (currentSessionId s) (textOnly s) (voice s)
                  (speed s) (chat_reply env) (sendChat_begin s)))"
  by (simp add: sendChat_unfold Let_def after_voice_fields loadSessions_after_fields)

lemma sendChat_failed_chat:
  "trim (message s) \<noteq> [] \<Longrightarrow> failed (chat_reply env) \<Longrightarrow>
     sendChat env s =
       fst (sendChat_after_chat (currentSessionId s) (textOnly s) (voice s) (speed s)
              (chat_reply env) (sendChat_begin s))"
  by (simp add: sendChat_unfold Let_def after_chat_failed)

lemma sendChat_voiced:
  "trim (message s) \<noteq> [] \<Longrightarrow> chat_reply env = Ok d \<Longrightarrow> \<not> textOnly s \<Longrightarrow>
     \<exists>x. sendChat env s = sendChat_after_voice (voice_reply env) x"
  by (auto simp add: sendChat_unfold Let_def after_chat_Ok)

lemma not_failed_Ok: "\<not> failed r \<Longrightarrow> \<exists>d. r = Ok d"
  by (cases r) (simp_all add: failed_def)

lemma request_kinds:
  "is_chat_request (PostChatSession m c p)"
  "\<not> is_chat_request GetSessions"
  "\<not> is_chat_request (PostVoiceStream t v sp)"
  "\<not> is_voice_request (PostChatSession m c p)"
  "\<not> is_voice_request GetSessions"
  "is_voice_request (PostVoiceStream t v sp)"
  by (simp_all add: is_chat_request_def is_voice_request_def)

lemma sendChat_request_counts:
  assumes "trim (message s) \<noteq> []"
  shows "length (filter is_chat_request (requests (sendChat env s)))
           = length (filter is_chat_request (requests s)) + 1"
    and "length (filter is_voice_request (requests (sendChat env s)))
           \<le> length (filter is_voice_request (requests s)) + 1"
proof -
  let ?p = "sendChat_after_chat (currentSessionId s) (textOnly s) (voice s) (speed s)
              (chat_reply env) (sendChat_begin s)"
  have r: "requests (sendChat env s) = requests (fst ?p)"
    using assms by (rule sendChat_requests)
  show "length (filter is_chat_request (requests (sendChat env s)))
           = length (filter is_chat_request (requests s)) + 1"
  proof (cases "chat_reply env")
    case (Ok d)
    then show ?thesis
      by (simp add: r after_chat_Ok begin_fields request_kinds)
  next
    case (Rejected m)
    then have "failed (chat_reply env)" by (simp add: failed_def)
    then show ?thesis
      by (simp add: r after_chat_failed begin_fields request_kinds)
  next
    case (NotOk n)
    then have "failed (chat_reply env)" by (simp add: failed_def)
    then show ?thesis
      by (simp add: r after_chat_failed begin_fields request_kinds)
  qed
  show "length (filter is_voice_request (requests (sendChat env s)))
           \<le> length (filter is_voice_request (requests s)) + 1"
  proof (cases "chat_reply env")
    case (Ok d)
    then show ?thesis
      by (simp add: r after_chat_Ok begin_fields request_kinds)
  next
    case (Rejected m)
    then have "failed (chat_reply env)" by (simp add: failed_def)
    then show ?thesis
      by (simp add: r after_chat_failed begin_fields request_kinds)
  next
    case (NotOk n)
    then have "failed (chat_reply env)" by (simp add: failed_def)
    then show ?thesis
      by (simp add: r after_chat_failed begin_fields request_kinds)
  qed
qed


lemma trim_sample: "trim (message sample_state) = ''next''"
  by (simp add: sample_state_def trim_def is_ws_def)

lemma trim_fresh: "trim (message fresh_state) = ''next''"
  by (simp add: fresh_state_def sample_state_def trim_def is_ws_def)

lemma trim_blank: "trim (message blank_state) = []"
  by (simp add: blank_state_def trim_def is_ws_def)

lemma history_sample: "history sample_state = [user_entry ''hi'', assistant_entry ''hello'']"
  by (simp add: sample_state_def)

lemmas deleteSession_defs = deleteSession_def deleteSession_begin_def
  deleteSession_after_delete_def deleteSession_after_list_def loadSessions_begin_def
  loadSessions_after_def createNewSession_def

subsection \<open>Sending a chat message\<close>

text \<open>
  Claim C1, as amended. For every input message that is not blank, after \<^verbatim>\<open>sendChat\<close>
  completes the history is the old history followed by one user entry holding the trimmed
  input and, when the chat request succeeded, by one assistant entry holding the returned
  response text; when the chat request failed, the user entry is the only one appended.
\<close>

theorem sendChat_history:
  "trim (message s) \<noteq> [] \<Longrightarrow>
     history (sendChat env s) =
       history s @ [user_entry (trim (message s))]
         @ (case chat_reply env of
              Ok d \<Rightarrow> [assistant_entry (response d)] | NotOk n \<Rightarrow> [] | Rejected m \<Rightarrow> [])"
proof (cases "chat_reply env")
  case (Ok d)
  assume "trim (message s) \<noteq> []"
  then show ?thesis
    by (simp add: sendChat_history_eq Ok after_chat_Ok begin_fields)
next
  case (Rejected m)
  assume a: "trim (message s) \<noteq> []"
  have "failed (chat_reply env)" by (simp add: Rejected failed_def)
  then show ?thesis
    by (simp add: sendChat_history_eq [OF a] after_chat_failed begin_fields Rejected)
next
  case (NotOk n)
  assume a: "trim (message s) \<noteq> []"
  have "failed (chat_reply env)" by (simp add: NotOk failed_def)
  then show ?thesis
    by (simp add: sendChat_history_eq [OF a] after_chat_failed begin_fields NotOk)
qed

theorem sendChat_history_witness:
  "trim (message sample_state) \<noteq> []
   \<and> history (sendChat (chat_up 9) sample_state) =
       [user_entry ''hi'', assistant_entry ''hello'', user_entry ''next'', assistant_entry ''ok!'']"
  using sendChat_history [of sample_state "chat_up 9"]
  by (simp add: trim_sample chat_up_def sample_chat_data_def history_sample)

text \<open>The claim as stated fails when the chat endpoint answers 500: one entry is appended,
  not two.\<close>

theorem sendChat_history_counterexample:
  "trim (message sample_state) \<noteq> []
   \<and> history (sendChat chat_down sample_state) = history sample_state @ [user_entry ''next'']
   \<and> length (history (sendChat chat_down sample_state)) \<noteq> length (history sample_state) + 2"
proof -
  have a: "trim (message sample_state) \<noteq> []"
    by (simp add: trim_sample)
  have f: "failed (chat_reply chat_down)"
    by (simp add: chat_down_def failed_def)
  show ?thesis
    by (simp add: sendChat_history_eq [OF a] after_chat_failed [OF f] begin_fields trim_sample)
qed

text \<open>
  Claim C3. Every upstream failure during \<^verbatim>\<open>sendChat\<close> (the chat request, or the voice
  request when audio is wanted, failing or throwing) ends with a status that begins with
  "Error:" and with loading reset to false, and nothing is retried: the call has issued
  exactly one chat request and at most one voice request.
\<close>

theorem sendChat_failure_surfaced:
  assumes nonblank: "trim (message s) \<noteq> []"
    and failure: "failed (chat_reply env) \<or> (\<not> textOnly s \<and> failed (voice_reply env))"
  shows "take 6 (status (sendChat env s)) = ''Error:''
     \<and> \<not> loading (sendChat env s)
     \<and> length (filter is_chat_request (requests (sendChat env s)))
         = length (filter is_chat_request (requests s)) + 1
     \<and> length (filter is_voice_request (requests (sendChat env s)))
         \<le> length (filter is_voice_request (requests s)) + 1"
proof -
  have surfaced: "take 6 (status (sendChat env s)) = ''Error:'' \<and> \<not> loading (sendChat env s)"
  proof (cases "failed (chat_reply env)")
    case True
    then show ?thesis
      by (simp add: sendChat_failed_chat [OF nonblank True] after_chat_failed)
  next
    case False
    then obtain d where d: "chat_reply env = Ok d"
      using not_failed_Ok by blast
    from False failure have v: "\<not> textOnly s" "failed (voice_reply env)"
      by simp_all
    from sendChat_voiced [OF nonblank d v(1)]
    obtain x where "sendChat env s = sendChat_after_voice (voice_reply env) x" ..
    then show ?thesis
      by (simp add: after_voice_failed [OF v(2)] after_voice_fields)
  qed
  with sendChat_request_counts [OF nonblank, of env] show ?thesis
    by simp
qed

theorem sendChat_failure_surfaced_witness:
  "trim (message fresh_state) \<noteq> []
   \<and> (failed (chat_reply voice_down) \<or> (\<not> textOnly fresh_state \<and> failed (voice_reply voice_down)))
   \<and> take 6 (status (sendChat voice_down fresh_state)) = ''Error:''
   \<and> \<not> loading (sendChat voice_down fresh_state)"
proof -
  have a: "trim (message fresh_state) \<noteq> []"
    by (simp add: trim_fresh)
  have b: "failed (chat_reply voice_down) \<or> (\<not> textOnly fresh_state \<and> failed (voice_reply voice_down))"
    by (simp add: voice_down_def failed_def fresh_state_def sample_state_def initial_state_def)
  from sendChat_failure_surfaced [OF a b] a b show ?thesis
    by simp
qed

text \<open>With no session current, a chat reply whose session id is truthy is adopted, and the
  call issues the chat request, the refresh of the session list and, unless text only,
  the voice request, in this order and nothing else.\<close>

lemma sendChat_adopts_truthy_session_id:
  assumes "currentSessionId s = None" and "trim (message s) \<noteq> []"
    and "chat_reply env = Ok d" and "reply_sid d = Some sid" and "sid \<noteq> 0"
  shows "currentSessionId (sendChat env s) = Some sid"
    and "requests (sendChat env s) =
           requests s @ [PostChatSession (trim (message s)) None ''iroha'', GetSessions]
             @ (if textOnly s then [] else [PostVoiceStream (response d) (voice s) (speed s)])"
  using assms
  by (simp_all add: sendChat_currentSessionId_eq sendChat_requests after_chat_Ok begin_fields
      truthy_def)

text \<open>
  Claim C5. If \<^verbatim>\<open>sendChat\<close> is invoked while no session is current and the chat request
  succeeds with a session id in the metadata of the response, then afterwards
  \<^verbatim>\<open>currentSessionId\<close> should be the returned session id. With no session current and the
  reply carrying the session id 0, the truthiness test \<^verbatim>\<open>data.metadata?.session_id &&\<close>
  takes the id for an absent one: \<^verbatim>\<open>currentSessionId\<close> stays null and no refresh of the
  session list is requested. On the same state the reply carrying the session id 9 is
  adopted and the refresh requested.
\<close>

theorem session_id_zero_not_adopted:
  "currentSessionId fresh_state = None
   \<and> trim (message fresh_state) = ''next''
   \<and> chat_reply (chat_up 0) = Ok (sample_chat_data 0)
   \<and> reply_sid (sample_chat_data 0) = Some 0
   \<and> currentSessionId (sendChat (chat_up 0) fresh_state) = None
   \<and> requests (sendChat (chat_up 0) fresh_state) =
       requests fresh_state
         @ [PostChatSession ''next'' None ''iroha'',
            PostVoiceStream ''ok!'' ''Arista-PlayAI'' (105 / 100)]
   \<and> reply_sid (sample_chat_data 9) = Some 9
   \<and> currentSessionId (sendChat (chat_up 9) fresh_state) = Some 9
   \<and> requests (sendChat (chat_up 9) fresh_state) =
       requests fresh_state
         @ [PostChatSession ''next'' None ''iroha'', GetSessions,
            PostVoiceStream ''ok!'' ''Arista-PlayAI'' (105 / 100)]"
proof -
  have a: "trim (message fresh_state) \<noteq> []"
    by (simp add: trim_fresh)
  have c: "chat_reply (chat_up n) = Ok (sample_chat_data n)" for n
    by (simp add: chat_up_def)
  have d: "reply_sid (sample_chat_data n) = Some n" for n
    by (simp add: reply_sid_def sample_chat_data_def)
  have e: "currentSessionId fresh_state = None"
    by (simp add: fresh_state_def)
  have f: "textOnly fresh_state = False" "voice fresh_state = ''Arista-PlayAI''"
    "speed fresh_state = 105 / 100"
    by (simp_all add: fresh_state_def sample_state_def initial_state_def)
  have g: "response (sample_chat_data n) = ''ok!''" for n
    by (simp add: sample_chat_data_def)
  show ?thesis
    by (simp add: sendChat_currentSessionId_eq [OF a] sendChat_requests [OF a] c d e f g
        after_chat_Ok begin_fields truthy_def trim_fresh)
qed

text \<open>
  Claim C8. When the input message is empty or only white space, \<^verbatim>\<open>sendChat\<close> is a no-op:
  the whole state, with history, status, loading, current session, audio URL and the log
  of requests, is unchanged, and the call leaves nothing pending.
\<close>

theorem sendChat_blank_noop:
  "trim (message s) = [] \<Longrightarrow>
     sendChat env s = s \<and> sendChat_call \<lparr>ui = s, pending = ts\<rparr> = \<lparr>ui = s, pending = ts\<rparr>"
  by (simp add: sendChat_def sendChat_call_def)

theorem sendChat_blank_noop_witness:
  "trim (message blank_state) = []
   \<and> sendChat chat_down blank_state = blank_state
   \<and> sendChat_call \<lparr>ui = blank_state, pending = []\<rparr> = \<lparr>ui = blank_state, pending = []\<rparr>"
  using sendChat_blank_noop [of blank_state chat_down "[]"] by (simp add: trim_blank)

subsection \<open>Deleting a session\<close>




text \<open>The response to the \<^verbatim>\<open>DELETE\<close> is not tested with \<^verbatim>\<open>res.ok\<close>, as the responses of
  the other requests are: when it is answered 404 and the session is still in the store,
  the conversation is reset although the session stays in the sidebar.\<close>

lemma deleteSession_refused_still_resets:
  "currentSessionId sample_state = Some 7
   \<and> 7 \<in> set (map session_id (sessions (deleteSession store_refuses 7 sample_state)))
   \<and> history (deleteSession store_refuses 7 sample_state) = []
   \<and> currentSessionId (deleteSession store_refuses 7 sample_state) = None"
  by (simp add: deleteSession_defs store_refuses_def backend_list_def sample_rows_def
      sample_state_def sample_session_def)

subsection \<open>Runs of events\<close>

lemma run_Nil: "run [] sys = sys"
  by (simp add: run_def)

lemma run_Cons: "run (e # es) sys = run es (step e sys)"
  by (simp add: run_def)

lemma run_append: "run (es1 @ es2) sys = run es2 (run es1 sys)"
  by (simp add: run_def)

lemma speed_phases:
  "speed (loadSessions_after r1 s) = speed s"
  "speed (loadSession_after sid r2 s) = speed s"
  "speed (fst (deleteSession_after_delete sid cur r3 s)) = speed s"
  "speed (deleteSession_after_list sid cur r1 s) = speed s"
  "speed (fst (sendChat_after_chat cur tOnly v sp r4 s)) = speed s"
  "speed (sendChat_after_voice r5 s) = speed s"
proof -
  show a: "speed (loadSessions_after r1 s) = speed s" for s
    by (cases r1) (simp_all add: loadSessions_after_def)
  show "speed (loadSession_after sid r2 s) = speed s"
    by (cases r2) (simp_all add: loadSession_after_def Let_def split: option.split)
  show "speed (fst (deleteSession_after_delete sid cur r3 s)) = speed s"
    by (cases r3) (simp_all add: deleteSession_after_delete_def loadSessions_begin_def)
  show "speed (deleteSession_after_list sid cur r1 s) = speed s"
    by (simp add: deleteSession_after_list_def Let_def createNewSession_def a)
  show "speed (fst (sendChat_after_chat cur tOnly v sp r4 s)) = speed s"
    by (cases r4)
       (simp_all add: sendChat_after_chat_def sendChat_catch_def loadSessions_begin_def Let_def)
  show "speed (sendChat_after_voice r5 s) = speed s"
    by (cases r5) (simp_all add: sendChat_after_voice_def sendChat_catch_def)
qed

lemma spawned_tasks:
  "LoadConfig_fetch \<notin> set (snd (deleteSession_after_delete sid cur r3 s))"
  "LoadConfig_fetch \<notin> set (snd (sendChat_after_chat cur' tOnly v sp r4 s))"
proof -
  show "LoadConfig_fetch \<notin> set (snd (deleteSession_after_delete sid cur r3 s))"
    by (cases r3) (simp_all add: deleteSession_after_delete_def)
  show "LoadConfig_fetch \<notin> set (snd (sendChat_after_chat cur' tOnly v sp r4 s))"
    by (cases r4) (simp_all add: sendChat_after_chat_def Let_def)
qed

lemma resume_other:
  "resume t r s = Some p \<Longrightarrow> t \<noteq> LoadConfig_fetch \<Longrightarrow>
     speed (fst p) = speed s \<and> LoadConfig_fetch \<notin> set (snd p)"
  by (cases t; cases r) (auto simp add: speed_phases spawned_tasks)

lemma resume_config:
  "resume LoadConfig_fetch r s = Some p \<Longrightarrow>
     snd p = [] \<and> (\<exists>c. r = ConfigReply c \<and> fst p = loadConfig_after c s)"
  by (cases r) auto

lemma resume_spawns: "resume t r s = Some p \<Longrightarrow> LoadConfig_fetch \<notin> set (snd p)"
  by (cases "t = LoadConfig_fetch") (auto dest: resume_config resume_other)

lemma filter_without_nth_le:
  "length (filter P (take n xs)) + length (filter P (drop (Suc n) xs)) \<le> length (filter P xs)"
proof (cases "n < length xs")
  case True
  then have "xs = take n xs @ xs ! n # drop (Suc n) xs"
    by (simp add: id_take_nth_drop)
  then have "filter P xs = filter P (take n xs) @ filter P (xs ! n # drop (Suc n) xs)"
    by (metis filter_append)
  then show ?thesis by simp
next
  case False
  then show ?thesis by simp
qed

lemma filter_without_nth_eq:
  assumes "n < length xs" and "P (xs ! n)"
  shows "Suc (length (filter P (take n xs)) + length (filter P (drop (Suc n) xs)))
           = length (filter P xs)"
proof -
  from assms(1) have "xs = take n xs @ xs ! n # drop (Suc n) xs"
    by (simp add: id_take_nth_drop)
  then have "filter P xs = filter P (take n xs) @ filter P (xs ! n # drop (Suc n) xs)"
    by (metis filter_append)
  with assms(2) show ?thesis by simp
qed

lemma step_Settle:
  "step (Settle n r) sys =
     (if n < length (pending sys) then
        (case resume (pending sys ! n) r (ui sys) of
           None \<Rightarrow> sys
         | Some p \<Rightarrow>
             sys\<lparr>ui := fst p,
                 pending := take n (pending sys) @ drop (Suc n) (pending sys) @ snd p\<rparr>)
      else sys)"
  by (simp add: step_def split: option.split prod.split)

lemmas handler_defs = handleKeyDown_def sendChat_call_def sendChat_begin_def clearAll_def
  createNewSession_def loadSession_begin_def deleteSession_begin_def toggleBookmark_def
  addReaction_def startListening_def stopListening_def

lemma step_user_pending:
  assumes "\<And>n r. e \<noteq> Settle n r"
  shows "filter (\<lambda>t. t = LoadConfig_fetch) (pending (step e sys))
           = filter (\<lambda>t. t = LoadConfig_fetch) (pending sys)"
proof (cases e)
  case (Settle n r)
  with assms show ?thesis by blast
qed (simp_all add: step_def Let_def handler_defs)

lemma step_user_speed:
  assumes "\<And>n r. e \<noteq> Settle n r"
  shows "speed (ui (step e sys)) = speed (ui sys)
         \<or> (1 / 2 \<le> speed (ui (step e sys)) \<and> speed (ui (step e sys)) \<le> 2)"
proof (cases e)
  case (Settle n r)
  with assms show ?thesis by blast
qed (simp_all add: step_def Let_def handler_defs)

lemma step_configs_le: "configs_pending (step e sys) \<le> configs_pending sys"
proof (cases "\<exists>n r. e = Settle n r")
  case False
  then have "\<And>n r. e \<noteq> Settle n r" by blast
  then show ?thesis
    by (simp add: configs_pending_def step_user_pending)
next
  case True
  then obtain n r where e: "e = Settle n r" by blast
  show ?thesis
  proof (cases "n < length (pending sys)")
    case False
    then show ?thesis by (simp add: e step_Settle)
  next
    case n: True
    show ?thesis
    proof (cases "resume (pending sys ! n) r (ui sys)")
      case None
      with n show ?thesis by (simp add: e step_Settle)
    next
      case (Some p)
      then have "filter (\<lambda>t. t = LoadConfig_fetch) (snd p) = []"
        using resume_spawns [OF Some] by (auto simp add: filter_empty_conv)
      with n Some show ?thesis
        using filter_without_nth_le [of "\<lambda>t. t = LoadConfig_fetch" n "pending sys"]
        by (simp add: e step_Settle configs_pending_def)
    qed
  qed
qed

lemma run_configs_le: "configs_pending (run es sys) \<le> configs_pending sys"
proof (induction es arbitrary: sys)
  case Nil
  show ?case by (simp add: run_Nil)
next
  case (Cons e es)
  have "configs_pending (run es (step e sys)) \<le> configs_pending (step e sys)"
    by (rule Cons.IH)
  also have "\<dots> \<le> configs_pending sys"
    by (rule step_configs_le)
  finally show ?case by (simp add: run_Cons)
qed

lemma no_config_pending:
  "configs_pending sys = 0 \<Longrightarrow> n < length (pending sys) \<Longrightarrow> pending sys ! n \<noteq> LoadConfig_fetch"
  by (auto simp add: configs_pending_def filter_empty_conv)

lemma step_keeps_speed:
  assumes none: "configs_pending sys = 0"
    and ok: "speed (ui sys) = d \<or> (1 / 2 \<le> speed (ui sys) \<and> speed (ui sys) \<le> 2)"
  shows "speed (ui (step e sys)) = d
         \<or> (1 / 2 \<le> speed (ui (step e sys)) \<and> speed (ui (step e sys)) \<le> 2)"
proof (cases "\<exists>n r. e = Settle n r")
  case False
  then have "\<And>n r. e \<noteq> Settle n r" by blast
  then have "speed (ui (step e sys)) = speed (ui sys)
     \<or> (1 / 2 \<le> speed (ui (step e sys)) \<and> speed (ui (step e sys)) \<le> 2)"
    by (rule step_user_speed)
  with ok show ?thesis by auto
next
  case True
  then obtain n r where e: "e = Settle n r" by blast
  show ?thesis
  proof (cases "n < length (pending sys)")
    case False
    with ok show ?thesis by (simp add: e step_Settle)
  next
    case n: True
    show ?thesis
    proof (cases "resume (pending sys ! n) r (ui sys)")
      case None
      with n ok show ?thesis by (simp add: e step_Settle)
    next
      case (Some p)
      have "pending sys ! n \<noteq> LoadConfig_fetch"
        using none n by (rule no_config_pending)
      with Some have "speed (fst p) = speed (ui sys)"
        by (simp add: resume_other)
      with n Some ok show ?thesis by (simp add: e step_Settle)
    qed
  qed
qed

lemma run_keeps_speed:
  "configs_pending sys = 0 \<Longrightarrow>
   speed (ui sys) = d \<or> (1 / 2 \<le> speed (ui sys) \<and> speed (ui sys) \<le> 2) \<Longrightarrow>
     speed (ui (run es sys)) = d
     \<or> (1 / 2 \<le> speed (ui (run es sys)) \<and> speed (ui (run es sys)) \<le> 2)"
proof (induction es arbitrary: sys)
  case Nil
  then show ?case by (simp add: run_Nil)
next
  case (Cons e es)
  have "configs_pending (step e sys) = 0"
    using step_configs_le [of e sys] Cons.prems(1) by simp
  moreover have "speed (ui (step e sys)) = d
         \<or> (1 / 2 \<le> speed (ui (step e sys)) \<and> speed (ui (step e sys)) \<le> 2)"
    using Cons.prems by (rule step_keeps_speed)
  ultimately show ?case
    using Cons.IH [of "step e sys"] by (simp add: run_Cons)
qed

lemma configs_mounted: "configs_pending (mounted b) = 1"
  by (simp add: configs_pending_def mounted_def)

text \<open>The functions \<^const>\<open>sendChat\<close> and \<^const>\<open>deleteSession\<close> are the runs of the page in which
  nothing else happens between the call and its end.\<close>

lemma after_chat_tasks:
  "snd (sendChat_after_chat cur tOnly v sp r s) = []
   \<or> snd (sendChat_after_chat cur tOnly v sp r s) = [LoadSessions_fetch]
   \<or> snd (sendChat_after_chat cur tOnly v sp r s) = [SendChat_voice]
   \<or> snd (sendChat_after_chat cur tOnly v sp r s) = [LoadSessions_fetch, SendChat_voice]"
  by (cases r) (simp_all add: sendChat_after_chat_def Let_def)

lemma step_Enter:
  "\<not> isListening (ui sys) \<Longrightarrow> step (KeyDown ''Enter'' False) sys = sendChat_call sys"
  by (simp add: step_def handleKeyDown_def)

lemma sendChat_is_run:
  assumes idle: "\<not> isListening s"
  shows "run (sendChat_events env s) \<lparr>ui = s, pending = []\<rparr> = \<lparr>ui = sendChat env s, pending = []\<rparr>"
proof (cases "trim (message s) = []")
  case True
  then show ?thesis
    using idle
    by (simp add: sendChat_events_def Let_def run_Cons run_Nil step_Enter step_Settle
        sendChat_call_def sendChat_def)
next
  case False
  let ?p = "sendChat_after_chat (currentSessionId s) (textOnly s) (voice s) (speed s)
              (chat_reply env) (sendChat_begin s)"
  have start: "run [KeyDown ''Enter'' False, Settle 0 (ChatReply (chat_reply env))]
                 \<lparr>ui = s, pending = []\<rparr> = \<lparr>ui = fst ?p, pending = snd ?p\<rparr>"
    using idle False
    by (simp add: run_Cons run_Nil step_Enter step_Settle sendChat_call_def Let_def)
  from after_chat_tasks [of "currentSessionId s" "textOnly s" "voice s" "speed s"
      "chat_reply env" "sendChat_begin s"]
  consider "snd ?p = []" | "snd ?p = [LoadSessions_fetch]" | "snd ?p = [SendChat_voice]"
    | "snd ?p = [LoadSessions_fetch, SendChat_voice]"
    by blast
  then show ?thesis
  proof cases
    case 1
    then show ?thesis
      using start
      by (simp add: sendChat_events_def sendChat_unfold [OF False] Let_def run_append)
  next
    case 2
    then show ?thesis
      using start
      by (simp add: sendChat_events_def sendChat_unfold [OF False] Let_def run_append
          run_Cons run_Nil step_Settle)
  next
    case 3
    then show ?thesis
      using start
      by (simp add: sendChat_events_def sendChat_unfold [OF False] Let_def run_append
          run_Cons run_Nil step_Settle)
  next
    case 4
    then show ?thesis
      using start
      by (simp add: sendChat_events_def sendChat_unfold [OF False] Let_def run_append
          run_Cons run_Nil step_Settle)
  qed
qed

lemma deleteSession_is_run:
  assumes listed: "sessionId \<in> set (map session_id (sessions s))"
  shows "run (deleteSession_events env sessionId) \<lparr>ui = s, pending = []\<rparr>
           = \<lparr>ui = deleteSession env sessionId s, pending = []\<rparr>"
  using listed
  by (cases "delete_reply env")
     (simp_all add: deleteSession_events_def run_Cons run_Nil step_def deleteSession_def
       deleteSession_after_delete_def)

text \<open>
  Claim C7, as amended. In every state that a run of events reaches after the voice
  configuration is loaded, the speed is the \<^verbatim>\<open>default_speed\<close> of the loaded configuration
  (1.05 when it has none) or a value of the range input, which lies between the fixed
  bounds 0.5 and 2 of that input; the fetched \<^verbatim>\<open>speed_min\<close> and \<^verbatim>\<open>speed_max\<close> are
  neither stored nor enforced.
\<close>

theorem speed_after_config_load:
  assumes n: "n < length (pending (run es1 (mounted b)))"
    and at: "pending (run es1 (mounted b)) ! n = LoadConfig_fetch"
  shows "speed (ui (run (es1 @ Settle n (ConfigReply (Ok cfg)) # es2) (mounted b)))
           = (case default_speed cfg of None \<Rightarrow> 105 / 100 | Some d \<Rightarrow> d)
         \<or> (1 / 2 \<le> speed (ui (run (es1 @ Settle n (ConfigReply (Ok cfg)) # es2) (mounted b)))
            \<and> speed (ui (run (es1 @ Settle n (ConfigReply (Ok cfg)) # es2) (mounted b))) \<le> 2)"
proof -
  let ?sys1 = "run es1 (mounted b)"
  let ?sys2 = "step (Settle n (ConfigReply (Ok cfg))) ?sys1"
  let ?d = "case default_speed cfg of None \<Rightarrow> 105 / 100 | Some d \<Rightarrow> d"
  have le1: "configs_pending ?sys1 \<le> 1"
    using run_configs_le [of es1 "mounted b"] by (simp add: configs_mounted)
  have sys2: "?sys2 = ?sys1\<lparr>ui := loadConfig_after (Ok cfg) (ui ?sys1),
                pending := take n (pending ?sys1) @ drop (Suc n) (pending ?sys1) @ []\<rparr>"
    using n at by (simp add: step_Settle)
  have "Suc (length (filter (\<lambda>t. t = LoadConfig_fetch) (take n (pending ?sys1)))
          + length (filter (\<lambda>t. t = LoadConfig_fetch) (drop (Suc n) (pending ?sys1))))
        = configs_pending ?sys1"
    unfolding configs_pending_def using n at by (intro filter_without_nth_eq) simp_all
  with le1 have "length (filter (\<lambda>t. t = LoadConfig_fetch) (take n (pending ?sys1))) = 0"
    and "length (filter (\<lambda>t. t = LoadConfig_fetch) (drop (Suc n) (pending ?sys1))) = 0"
    by linarith+
  then have none: "configs_pending ?sys2 = 0"
    by (simp add: sys2 configs_pending_def)
  have "speed (ui ?sys2) = ?d"
    by (simp add: sys2 loadConfig_after_def)
  then have "speed (ui ?sys2) = ?d \<or> (1 / 2 \<le> speed (ui ?sys2) \<and> speed (ui ?sys2) \<le> 2)"
    by simp
  with none have "speed (ui (run es2 ?sys2)) = ?d
     \<or> (1 / 2 \<le> speed (ui (run es2 ?sys2)) \<and> speed (ui (run es2 ?sys2)) \<le> 2)"
    by (rule run_keeps_speed)
  then show ?thesis
    by (simp add: run_append run_Cons)
qed

lemma mounted_pending: "pending (run [] (mounted b)) = [LoadConfig_fetch, LoadSessions_fetch]"
  by (simp add: run_Nil mounted_def)

theorem speed_after_config_load_witness:
  "0 < length (pending (run [] (mounted False)))
   \<and> pending (run [] (mounted False)) ! 0 = LoadConfig_fetch
   \<and> (speed (ui (run ([] @ Settle 0 (ConfigReply (Ok sample_config)) # [ChangeSpeed 2])
                   (mounted False))) = 1
      \<or> (1 / 2 \<le> speed (ui (run ([] @ Settle 0 (ConfigReply (Ok sample_config)) # [ChangeSpeed 2])
                   (mounted False)))
         \<and> speed (ui (run ([] @ Settle 0 (ConfigReply (Ok sample_config)) # [ChangeSpeed 2])
                   (mounted False))) \<le> 2))"
proof -
  have a: "0 < length (pending (run [] (mounted False)))"
    by (simp add: mounted_pending)
  have b: "pending (run [] (mounted False)) ! 0 = LoadConfig_fetch"
    by (simp add: mounted_pending)
  have c: "default_speed sample_config = Some 1"
    by (simp add: sample_config_def)
  from speed_after_config_load [OF a b, of sample_config "[ChangeSpeed 2]"] a b show ?thesis
    by (simp add: c)
qed

text \<open>The claim as stated fails for a configuration whose \<^verbatim>\<open>speed_max\<close> is 1.5: the range
  input still offers 2.\<close>

theorem speed_after_config_load_counterexample:
  "speed_min sample_config = 1 / 2
   \<and> speed_max sample_config = 3 / 2
   \<and> speed (ui (run [Settle 0 (ConfigReply (Ok sample_config)), ChangeSpeed 2] (mounted False))) = 2
   \<and> \<not> speed (ui (run [Settle 0 (ConfigReply (Ok sample_config)), ChangeSpeed 2] (mounted False)))
         \<le> speed_max sample_config"
  by (simp add: run_Cons run_Nil step_Settle mounted_def step_def sample_config_def)

subsection \<open>Requests in flight\<close>

text \<open>The send button does nothing while loading, and every way \<^verbatim>\<open>sendChat\<close> ends
  resets loading.\<close>

lemma send_button_disabled_while_loading: "loading (ui sys) \<Longrightarrow> step ClickSend sys = sys"
  by (simp add: step_def)

lemma sendChat_end_resets_loading:
  "SendChat_voice \<notin> set (snd (sendChat_after_chat cur tOnly v sp r s)) \<Longrightarrow>
     \<not> loading (fst (sendChat_after_chat cur tOnly v sp r s))"
  "\<not> loading (sendChat_after_voice r' s)"
proof -
  show "SendChat_voice \<notin> set (snd (sendChat_after_chat cur tOnly v sp r s)) \<Longrightarrow>
     \<not> loading (fst (sendChat_after_chat cur tOnly v sp r s))"
    by (cases r) (simp_all add: sendChat_after_chat_def sendChat_catch_def Let_def split: if_splits)
  show "\<not> loading (sendChat_after_voice r' s)"
    by (simp add: after_voice_fields)
qed

lemma busy_page_eq:
  "busy_page =
     \<lparr>ui = initial_state
         \<lparr>message := ''again'', history := [user_entry ''hi''], status := ''Thinking...'',
          loading := True,
          requests := [GetVoiceConfig, GetSessions, PostChatSession ''hi'' None ''iroha'']\<rparr>,
      pending = [LoadConfig_fetch, LoadSessions_fetch,
                 SendChat_fetch None False ''Arista-PlayAI'' (105 / 100)]\<rparr>"
  by (simp add: busy_page_def run_Cons run_Nil step_def mounted_def initial_state_def
      handleKeyDown_def sendChat_call_def sendChat_begin_def trim_def is_ws_def Let_def)

text \<open>
  Claim C2. While a chat request is in flight no user action should start a second one.
  On the page that awaits the reply to "hi" with "again" typed, loading is true and one
  chat request is in flight; the send button is disabled, but the Enter key in the
  textarea calls \<^verbatim>\<open>sendChat\<close> and puts a second chat request in flight, and when one of
  the two fails loading is reset while the other is still awaited.
\<close>

theorem enter_key_sends_while_loading:
  "loading (ui busy_page)
   \<and> chats_in_flight busy_page = 1
   \<and> step ClickSend busy_page = busy_page
   \<and> chats_in_flight (step (KeyDown ''Enter'' False) busy_page) = 2
   \<and> filter is_chat_request (requests (ui (step (KeyDown ''Enter'' False) busy_page)))
       = [PostChatSession ''hi'' None ''iroha'', PostChatSession ''again'' None ''iroha'']
   \<and> \<not> loading (ui (run [KeyDown ''Enter'' False, Settle 2 (ChatReply (NotOk 500))] busy_page))
   \<and> chats_in_flight (run [KeyDown ''Enter'' False, Settle 2 (ChatReply (NotOk 500))] busy_page) = 1"
  by (simp add: busy_page_eq run_Cons run_Nil step_Settle step_def initial_state_def
      handleKeyDown_def sendChat_call_def sendChat_begin_def trim_def is_ws_def Let_def
      chats_in_flight_def awaits_chat_def is_chat_request_def sendChat_after_chat_def
      sendChat_catch_def)

subsection \<open>Reactions and bookmarks\<close>

text \<open>
  Claim C4. \<^verbatim>\<open>addReaction\<close> and \<^verbatim>\<open>toggleBookmark\<close> return a history of the same length
  in which every entry keeps its role and content; the addressed entry differs from the
  old one in its reactions (for \<^verbatim>\<open>addReaction\<close>) or its bookmark flag (for
  \<^verbatim>\<open>toggleBookmark\<close>) at most, and every other entry is unchanged.
\<close>

theorem addReaction_toggleBookmark_frame:
  "length (history (addReaction i e s)) = length (history s)
   \<and> length (history (toggleBookmark i s)) = length (history s)
   \<and> (j < length (history s) \<longrightarrow>
        role (history (addReaction i e s) ! j) = role (history s ! j)
        \<and> content (history (addReaction i e s) ! j) = content (history s ! j)
        \<and> history (addReaction i e s) ! j
            = (history s ! j)\<lparr>reactions := reactions (history (addReaction i e s) ! j)\<rparr>
        \<and> (int j \<noteq> i \<longrightarrow> history (addReaction i e s) ! j = history s ! j)
        \<and> role (history (toggleBookmark i s) ! j) = role (history s ! j)
        \<and> content (history (toggleBookmark i s) ! j) = content (history s ! j)
        \<and> history (toggleBookmark i s) ! j
            = (history s ! j)\<lparr>bookmarked := bookmarked (history (toggleBookmark i s) ! j)\<rparr>
        \<and> (int j \<noteq> i \<longrightarrow> history (toggleBookmark i s) ! j = history s ! j))"
  by (simp add: addReaction_def toggleBookmark_def length_map_idx nth_map_idx react_msg_def
      bookmark_msg_def Let_def)

theorem addReaction_toggleBookmark_frame_witness:
  "(0::nat) < length (history sample_state)
   \<and> int 0 \<noteq> 1
   \<and> length (history (addReaction 1 ''x'' sample_state)) = 2
   \<and> length (history (toggleBookmark 1 sample_state)) = 2
   \<and> history (addReaction 1 ''x'' sample_state) ! 0 = user_entry ''hi''
   \<and> history (toggleBookmark 1 sample_state) ! 0 = user_entry ''hi''"
  using addReaction_toggleBookmark_frame [of 1 "''x''" sample_state 0]
  by (simp add: history_sample)

text \<open>
  Claim C9. \<^verbatim>\<open>addReaction\<close> toggles membership: for a valid message index and an emoji,
  after the call the emoji is among the reactions of that message if and only if it was
  not among them before.
\<close>

theorem addReaction_toggles_membership:
  "i < length (history s) \<Longrightarrow>
     (e \<in> set (reaction_list (history (addReaction (int i) e s) ! i)))
       = (e \<notin> set (reaction_list (history s ! i)))"
  by (simp add: addReaction_def nth_map_idx react_msg_def reaction_list_def Let_def)

theorem addReaction_toggles_membership_witness:
  "(1::nat) < length (history sample_state)
   \<and> ''x'' \<notin> set (reaction_list (history sample_state ! 1))
   \<and> ''x'' \<in> set (reaction_list (history (addReaction 1 ''x'' sample_state) ! 1))"
  using addReaction_toggles_membership [of 1 sample_state "''x''"]
  by (simp add: history_sample assistant_entry_def reaction_list_def)

subsection \<open>Starting over\<close>

text \<open>
  Claim C10. \<^verbatim>\<open>createNewSession\<close> and \<^verbatim>\<open>clearAll\<close> compute the same state update except
  for the status text: both empty the history and set the current session and the audio
  URL to null; one sets the status to "New chat started", the other to "Cleared", and
  each is the other followed by its own status.
\<close>

theorem createNewSession_clearAll_same_but_status:
  "history (createNewSession s) = [] \<and> history (clearAll s) = []
   \<and> currentSessionId (createNewSession s) = None \<and> currentSessionId (clearAll s) = None
   \<and> audioUrl (createNewSession s) = None \<and> audioUrl (clearAll s) = None
   \<and> status (createNewSession s) = ''New chat started''
   \<and> status (clearAll s) = ''Cleared''
   \<and> createNewSession s = (clearAll s)\<lparr>status := ''New chat started''\<rparr>
   \<and> clearAll s = (createNewSession s)\<lparr>status := ''Cleared''\<rparr>"
  by (simp add: createNewSession_def clearAll_def)

end
